theory Spec2Isabelle
  imports Main "HOL-Library.Sublist"
begin

section \<open>The weighbridge log page (\<^verbatim>\<open>src/webapp/src/app/page.tsx\<close>)\<close>

text \<open>
  The page is one React component whose state is four \<^verbatim>\<open>useState\<close> cells: the entries,
  the form, the id being edited and the search term. Every event handler is embedded as a
  function from the state before the event to the state after it. What a handler reads
  from outside the state is an argument: \<open>today\<close> is the text that
  \<^verbatim>\<open>new Date().toISOString().split('T')[0]\<close> yields at that moment, and \<open>rnd k\<close> is
  the text that the \<open>k\<close>-th call of \<^verbatim>\<open>generateId()\<close> made by the handler returns.
\<close>

subsection \<open>Strings of the host language\<close>

text \<open>
  A string is the list of its code units, and a \<^typ>\<open>char\<close> is a code unit in the range
  U+0000 to U+00FF. White space, lower case and upper case are the ones ECMAScript
  defines on that range.
\<close>

definition codeUnit :: "char \<Rightarrow> nat" where
  "codeUnit c = of_char c"

definition backslash :: char where
  "backslash = CHR 0x5C"

text \<open>\<^verbatim>\<open>WhiteSpace\<close> and \<^verbatim>\<open>LineTerminator\<close>: TAB, LF, VT, FF, CR, SP, NBSP.\<close>

definition isWhiteSpace :: "char \<Rightarrow> bool" where
  "isWhiteSpace c \<longleftrightarrow> codeUnit c \<in> {9, 10, 11, 12, 13, 32, 160}"

text \<open>\<^verbatim>\<open>String.prototype.trim\<close>\<close>

definition trim :: "string \<Rightarrow> string" where
  "trim s = rev (dropWhile isWhiteSpace (rev (dropWhile isWhiteSpace s)))"

definition toLowerChar :: "char \<Rightarrow> char" where
  "toLowerChar c =
     (if (65 \<le> codeUnit c \<and> codeUnit c \<le> 90)
         \<or> (192 \<le> codeUnit c \<and> codeUnit c \<le> 222 \<and> codeUnit c \<noteq> 215)
      then char_of (codeUnit c + 32) else c)"

text \<open>\<^verbatim>\<open>String.prototype.toLowerCase\<close>\<close>

definition toLowerCase :: "string \<Rightarrow> string" where
  "toLowerCase s = map toLowerChar s"

text \<open>
  \<^verbatim>\<open>String.prototype.toUpperCase\<close>. The sharp s becomes two code units. The upper case
  of the micro sign and of y with diaeresis lies beyond U+00FF; the only caller is
  \<^verbatim>\<open>generateId().toUpperCase()\<close>, whose argument has digits and a-z only.
\<close>

definition toUpperUnits :: "char \<Rightarrow> string" where
  "toUpperUnits c =
     (if (97 \<le> codeUnit c \<and> codeUnit c \<le> 122)
         \<or> (224 \<le> codeUnit c \<and> codeUnit c \<le> 254 \<and> codeUnit c \<noteq> 247)
      then [char_of (codeUnit c - 32)]
      else if codeUnit c = 223 then ''SS'' else [c])"

definition toUpperCase :: "string \<Rightarrow> string" where
  "toUpperCase s = concat (map toUpperUnits s)"

text \<open>\<^verbatim>\<open>String.prototype.includes\<close>\<close>

fun includes_str :: "string \<Rightarrow> string \<Rightarrow> bool" where
  "includes_str [] needle = (needle = [])"
| "includes_str (c # cs) needle = (prefix needle (c # cs) \<or> includes_str cs needle)"

text \<open>\<^verbatim>\<open>Array.prototype.join\<close> on an array of strings\<close>

fun join :: "string list \<Rightarrow> string \<Rightarrow> string" where
  "join [] sep = []"
| "join [x] sep = x"
| "join (x # y # ys) sep = x @ sep @ join (y # ys) sep"

subsection \<open>Numbers of the host language\<close>

text \<open>
  A Number is NaN, an infinity, or a finite value. A finite value is kept as the exact
  decimal \<open>m \<times> 10\<^sup>e\<close>, with \<open>m\<close> not divisible by ten (zero is \<open>Fin 0 0\<close>), which is
  the form in which both \<^verbatim>\<open>StringToNumber\<close> and \<^verbatim>\<open>Number::toString\<close> are specified.
  The rounding of a literal to binary64, the overflow to an infinity and the sign of
  zero are not represented: the embedding is exact on the integers below \<open>2\<^sup>5\<^sup>3\<close>,
  which is what a weight in kilograms is.
\<close>

datatype jsnum = NaN | PInf | NInf | Fin int int

function mkFin :: "int \<Rightarrow> int \<Rightarrow> jsnum" where
  "mkFin m e =
     (if m = 0 then Fin 0 0
      else if m mod 10 = 0 then mkFin (m div 10) (e + 1)
      else Fin m e)"
  by pat_completeness auto
termination
  by (relation "measure (\<lambda>(m, e). nat \<bar>m\<bar>)") auto

declare mkFin.simps [simp del]

text \<open>The value of an integer literal of the source, such as \<^verbatim>\<open>48000\<close>.\<close>

definition num :: "int \<Rightarrow> jsnum" where
  "num n = mkFin n 0"

fun jsNeg :: "jsnum \<Rightarrow> jsnum" where
  "jsNeg NaN = NaN"
| "jsNeg PInf = NInf"
| "jsNeg NInf = PInf"
| "jsNeg (Fin m e) = Fin (- m) e"

text \<open>The binary \<^verbatim>\<open>-\<close>\<close>

fun jsSub :: "jsnum \<Rightarrow> jsnum \<Rightarrow> jsnum" where
  "jsSub NaN _ = NaN"
| "jsSub _ NaN = NaN"
| "jsSub PInf PInf = NaN"
| "jsSub NInf NInf = NaN"
| "jsSub PInf _ = PInf"
| "jsSub NInf _ = NInf"
| "jsSub (Fin _ _) PInf = NInf"
| "jsSub (Fin _ _) NInf = PInf"
| "jsSub (Fin a ea) (Fin b eb) =
     (let e0 = min ea eb
      in mkFin (a * 10 ^ nat (ea - e0) - b * 10 ^ nat (eb - e0)) e0)"

text \<open>\<^verbatim>\<open>ToBoolean\<close> of a Number: NaN and zero are falsy.\<close>

fun truthy :: "jsnum \<Rightarrow> bool" where
  "truthy NaN = False"
| "truthy (Fin m e) = (m \<noteq> 0)"
| "truthy PInf = True"
| "truthy NInf = True"

text \<open>\<^verbatim>\<open>x || 0\<close>\<close>

definition orZero :: "jsnum \<Rightarrow> jsnum" where
  "orZero x = (if truthy x then x else Fin 0 0)"

text \<open>\<^verbatim>\<open>x > 0\<close>\<close>

fun gtZero :: "jsnum \<Rightarrow> bool" where
  "gtZero PInf = True"
| "gtZero (Fin m e) = (0 < m)"
| "gtZero NaN = False"
| "gtZero NInf = False"

definition isDigit :: "char \<Rightarrow> bool" where
  "isDigit c \<longleftrightarrow> 48 \<le> codeUnit c \<and> codeUnit c \<le> 57"

definition isRadixDigit :: "nat \<Rightarrow> char \<Rightarrow> bool" where
  "isRadixDigit b c \<longleftrightarrow>
     (isDigit c \<and> codeUnit c - 48 < b)
     \<or> (b = 16 \<and> ((97 \<le> codeUnit c \<and> codeUnit c \<le> 102) \<or> (65 \<le> codeUnit c \<and> codeUnit c \<le> 70)))"

definition digitsValue :: "nat \<Rightarrow> string \<Rightarrow> nat" where
  "digitsValue b ds =
     foldl (\<lambda>acc c. acc * b +
              (if isDigit c then codeUnit c - 48
               else if 97 \<le> codeUnit c then codeUnit c - 87
               else codeUnit c - 55)) 0 ds"

text \<open>\<^verbatim>\<open>NonDecimalIntegerLiteral\<close>: \<^verbatim>\<open>0x\<close>, \<^verbatim>\<open>0o\<close> or \<^verbatim>\<open>0b\<close> and digits of that radix.\<close>

definition nonDecimalLiteral :: "string \<Rightarrow> nat option" where
  "nonDecimalLiteral t =
     (case t of
        z # x # ds \<Rightarrow>
          (let b = (if x \<in> set ''xX'' then 16 else if x \<in> set ''oO'' then 8
                    else if x \<in> set ''bB'' then 2 else (0::nat))
           in if z = CHR ''0'' \<and> b \<noteq> 0 \<and> ds \<noteq> [] \<and> list_all (isRadixDigit b) ds
              then Some (digitsValue b ds) else None)
      | _ \<Rightarrow> None)"

text \<open>\<^verbatim>\<open>SignedInteger\<close>, the text after the exponent indicator.\<close>

definition signedInteger :: "string \<Rightarrow> int option" where
  "signedInteger x =
     (case x of
        [] \<Rightarrow> None
      | c # ds \<Rightarrow>
          if c = CHR ''+'' \<or> c = CHR ''-'' then
            (if ds \<noteq> [] \<and> list_all isDigit ds
             then Some ((if c = CHR ''-'' then - 1 else 1) * int (digitsValue 10 ds))
             else None)
          else if list_all isDigit x then Some (int (digitsValue 10 x)) else None)"

text \<open>
  \<^verbatim>\<open>StrUnsignedDecimalLiteral\<close>: \<^verbatim>\<open>Infinity\<close>, or digits with an optional fraction and
  an optional exponent, at least one digit before or after the point.
\<close>

definition unsignedDecimal :: "string \<Rightarrow> jsnum" where
  "unsignedDecimal r =
     (if r = ''Infinity'' then PInf
      else
        let mant = takeWhile (\<lambda>c. c \<notin> set ''eE'') r;
            expo = drop (length mant) r;
            ip = takeWhile (\<lambda>c. c \<noteq> CHR ''.'') mant;
            dotfp = drop (length ip) mant;
            fp = tl dotfp;
            ex = (if expo = [] then Some 0 else signedInteger (tl expo))
        in if list_all isDigit ip \<and> list_all isDigit fp
              \<and> (if dotfp = [] then ip \<noteq> [] else ip \<noteq> [] \<or> fp \<noteq> [])
           then (case ex of
                   None \<Rightarrow> NaN
                 | Some x \<Rightarrow> mkFin (int (digitsValue 10 (ip @ fp))) (x - int (length fp)))
           else NaN)"

text \<open>
  \<^verbatim>\<open>Number(s)\<close> for a string \<open>s\<close> (\<^verbatim>\<open>StringToNumber\<close>): white space is trimmed, the empty
  text is zero, and a text that is not a \<^verbatim>\<open>StrNumericLiteral\<close> is NaN.
\<close>

definition Number :: "string \<Rightarrow> jsnum" where
  "Number s =
     (let t = trim s
      in if t = [] then Fin 0 0
         else case nonDecimalLiteral t of
                Some n \<Rightarrow> mkFin (int n) 0
              | None \<Rightarrow>
                  (case t of
                     c # r \<Rightarrow>
                       if c = CHR ''+'' then unsignedDecimal r
                       else if c = CHR ''-'' then jsNeg (unsignedDecimal r)
                       else unsignedDecimal t
                   | [] \<Rightarrow> Fin 0 0))"

function digitsOf :: "nat \<Rightarrow> string" where
  "digitsOf n =
     (if n < 10 then [char_of (48 + n)]
      else digitsOf (n div 10) @ [char_of (48 + n mod 10)])"
  by pat_completeness auto
termination
  by (relation "measure (\<lambda>n. n)") auto

declare digitsOf.simps [simp del]

text \<open>
  \<^verbatim>\<open>Number.prototype.toString()\<close>: with \<open>s\<close> the digits of the value, \<open>k\<close> their count
  and \<open>s \<times> 10\<^bsup>n - k\<^esup>\<close> the value, the four layouts of \<^verbatim>\<open>Number::toString\<close>.
\<close>

definition toString :: "jsnum \<Rightarrow> string" where
  "toString x =
     (case x of
        NaN \<Rightarrow> ''NaN''
      | PInf \<Rightarrow> ''Infinity''
      | NInf \<Rightarrow> ''-Infinity''
      | Fin m e \<Rightarrow>
          if m = 0 then ''0''
          else
            let s = digitsOf (nat \<bar>m\<bar>);
                k = int (length s);
                n = k + e;
                body =
                  (if k \<le> n \<and> n \<le> 21 then s @ replicate (nat (n - k)) (CHR ''0'')
                   else if 0 < n \<and> n \<le> 21 then take (nat n) s @ ''.'' @ drop (nat n) s
                   else if - 6 < n \<and> n \<le> 0 then ''0.'' @ replicate (nat (- n)) (CHR ''0'') @ s
                   else (if k = 1 then s else hd s # ''.'' @ tl s) @ ''e''
                        @ (if n - 1 < 0 then ''-'' else ''+'') @ digitsOf (nat \<bar>n - 1\<bar>))
            in (if m < 0 then ''-'' else '''') @ body)"

subsection \<open>The data model\<close>

record Entry =
  id :: string
  plateNumber :: string
  yukBilan :: jsnum
  yuksiz :: jsnum
  sofVazin :: jsnum
  date :: string
  price :: string
  checkNumber :: string

record FormState =
  plateNumber :: string
  yukBilan :: string
  yuksiz :: string
  date :: string
  summa :: string
  checkNumber :: string

text \<open>\<^verbatim>\<open>keyof FormState\<close>\<close>

datatype field = PlateNumber | YukBilan | Yuksiz | Date | Summa | CheckNumber

text \<open>The four \<^verbatim>\<open>useState\<close> cells of \<^verbatim>\<open>Home\<close>; \<^verbatim>\<open>null\<close> is \<open>None\<close>.\<close>

record State =
  entries :: "Entry list"
  form :: FormState
  editingId :: "string option"
  searchTerm :: string

definition priceOptions :: "string list" where
  "priceOptions = [''30,000'', ''40,000'']"

text \<open>
  \<^verbatim>\<open>seedEntries: Array<Omit<Entry, 'id'>>\<close>: each seed is an entry that waits for its id,
  which \<^verbatim>\<open>{ ...entry, id: generateId() }\<close> supplies.
\<close>

definition seedEntries :: "(string \<Rightarrow> Entry) list" where
  "seedEntries =
     [\<lambda>g. \<lparr>Entry.id = g, Entry.plateNumber = ''90A111AA'', Entry.yukBilan = num 48000,
            Entry.yuksiz = num 12500, Entry.sofVazin = num 35500, Entry.date = ''2024-11-18'',
            Entry.price = ''30,000'', Entry.checkNumber = ''CHK-2024-9081''\<rparr>,
      \<lambda>g. \<lparr>Entry.id = g, Entry.plateNumber = ''30B555BB'', Entry.yukBilan = num 52500,
            Entry.yuksiz = num 14000, Entry.sofVazin = num 38500, Entry.date = ''2024-11-19'',
            Entry.price = ''40,000'', Entry.checkNumber = ''CHK-2024-9124''\<rparr>]"

text \<open>\<^verbatim>\<open>seedEntries.map((entry) => ({ ...entry, id: generateId() }))\<close>\<close>

definition seedsWithIds :: "(nat \<Rightarrow> string) \<Rightarrow> Entry list" where
  "seedsWithIds rnd = map (\<lambda>k. (seedEntries ! k) (rnd k)) [0 ..< length seedEntries]"

definition makeInitialFormState :: "string \<Rightarrow> FormState" where
  "makeInitialFormState today =
     \<lparr>FormState.plateNumber = '''', FormState.yukBilan = '''', FormState.yuksiz = '''',
      FormState.date = today, FormState.summa = hd priceOptions, FormState.checkNumber = ''''\<rparr>"

text \<open>\<^verbatim>\<open>loaded.replace(/,/g, '')\<close>\<close>

definition removeCommas :: "string \<Rightarrow> string" where
  "removeCommas s = filter (\<lambda>c. c \<noteq> CHR '','') s"

definition computeNetWeight :: "string \<Rightarrow> string \<Rightarrow> jsnum" where
  "computeNetWeight loaded empty' =
     (let loadedValue = orZero (Number (removeCommas loaded));
          emptyValue = orZero (Number (removeCommas empty'));
          diff = jsSub loadedValue emptyValue
      in if gtZero diff then diff else Fin 0 0)"

text \<open>The fourteen characters of the class \<^verbatim>\<open>[.*+?^${}()|[\]\\]\<close>.\<close>

definition syntaxCharacters :: "char list" where
  "syntaxCharacters = ''.*+?^${}()|[]'' @ [backslash]"

text \<open>\<^verbatim>\<open>value.replace(/[.*+?^${}()|[\]\\]/g, '\\$&')\<close>\<close>

definition escapeRegExp :: "string \<Rightarrow> string" where
  "escapeRegExp valu =
     concat (map (\<lambda>c. if c \<in> set syntaxCharacters then [backslash, c] else [c]) valu)"

text \<open>
  What \<^verbatim>\<open>Math.random().toString(36).slice(2, 10)\<close> can return: at most eight digits of
  base 36, none at all when the random number is zero.
\<close>

definition isGeneratedId :: "string \<Rightarrow> bool" where
  "isGeneratedId g \<longleftrightarrow>
     length g \<le> 8 \<and> list_all (\<lambda>c. isDigit c \<or> (97 \<le> codeUnit c \<and> codeUnit c \<le> 122)) g"

text \<open>Ids that \<^verbatim>\<open>generateId()\<close> can return, for the examples below.\<close>

definition sampleIds :: "nat \<Rightarrow> string" where
  "sampleIds k = (if k = 0 then ''k3x9p2q1'' else ''z8m4c7w0'')"

subsection \<open>The component\<close>

definition initialState :: "string \<Rightarrow> (nat \<Rightarrow> string) \<Rightarrow> State" where
  "initialState today rnd =
     \<lparr>entries = seedsWithIds rnd, form = makeInitialFormState today,
      editingId = None, searchTerm = ''''\<rparr>"

definition searchTermLower :: "State \<Rightarrow> string" where
  "searchTermLower s = toLowerCase (trim (searchTerm s))"

definition haystack :: "Entry \<Rightarrow> string" where
  "haystack entry =
     toLowerCase
       (join [Entry.plateNumber entry, toString (Entry.yukBilan entry),
              toString (Entry.yuksiz entry), toString (Entry.sofVazin entry),
              Entry.date entry, Entry.price entry, Entry.checkNumber entry] '' '')"

definition filteredEntries :: "State \<Rightarrow> Entry list" where
  "filteredEntries s =
     (if searchTermLower s = [] then entries s
      else filter (\<lambda>entry. includes_str (haystack entry) (searchTermLower s)) (entries s))"

definition netWeight :: "State \<Rightarrow> jsnum" where
  "netWeight s = computeNetWeight (FormState.yukBilan (form s)) (FormState.yuksiz (form s))"

fun setField :: "field \<Rightarrow> string \<Rightarrow> FormState \<Rightarrow> FormState" where
  "setField PlateNumber v prev = prev\<lparr>FormState.plateNumber := v\<rparr>"
| "setField YukBilan v prev = prev\<lparr>FormState.yukBilan := v\<rparr>"
| "setField Yuksiz v prev = prev\<lparr>FormState.yuksiz := v\<rparr>"
| "setField Date v prev = prev\<lparr>FormState.date := v\<rparr>"
| "setField Summa v prev = prev\<lparr>FormState.summa := v\<rparr>"
| "setField CheckNumber v prev = prev\<lparr>FormState.checkNumber := v\<rparr>"

definition handleInputChange :: "field \<Rightarrow> string \<Rightarrow> State \<Rightarrow> State" where
  "handleInputChange fld v s = s\<lparr>form := setField fld v (form s)\<rparr>"

definition setSearchTerm :: "string \<Rightarrow> State \<Rightarrow> State" where
  "setSearchTerm v s = s\<lparr>searchTerm := v\<rparr>"

definition resetForm :: "string \<Rightarrow> State \<Rightarrow> State" where
  "resetForm today s = s\<lparr>form := makeInitialFormState today, editingId := None\<rparr>"

text \<open>
  The \<^verbatim>\<open>newEntry\<close> of \<^verbatim>\<open>handleSubmit\<close>. \<^verbatim>\<open>generateId()\<close> is called for the id only when
  \<^verbatim>\<open>editingId\<close> is \<^verbatim>\<open>null\<close>, and for the check number only when the trimmed text is
  empty, so the call for the check number is the second or the first one.
\<close>

definition newEntry :: "(nat \<Rightarrow> string) \<Rightarrow> State \<Rightarrow> Entry" where
  "newEntry rnd s =
     \<lparr>Entry.id = (case editingId s of Some i \<Rightarrow> i | None \<Rightarrow> rnd 0),
      Entry.plateNumber = trim (FormState.plateNumber (form s)),
      Entry.yukBilan = orZero (Number (FormState.yukBilan (form s))),
      Entry.yuksiz = orZero (Number (FormState.yuksiz (form s))),
      Entry.sofVazin = netWeight s,
      Entry.date = FormState.date (form s),
      Entry.price = FormState.summa (form s),
      Entry.checkNumber =
        (if trim (FormState.checkNumber (form s)) \<noteq> [] then trim (FormState.checkNumber (form s))
         else ''CHK-'' @ toUpperCase (rnd (case editingId s of Some i \<Rightarrow> 0 | None \<Rightarrow> 1)))\<rparr>"

text \<open>The truth value of \<^verbatim>\<open>editingId\<close> in a condition: \<^verbatim>\<open>null\<close> and \<^verbatim>\<open>''\<close> are falsy.\<close>

definition editingTruthy :: "State \<Rightarrow> bool" where
  "editingTruthy s = (case editingId s of None \<Rightarrow> False | Some i \<Rightarrow> i \<noteq> [])"

definition handleSubmit :: "string \<Rightarrow> (nat \<Rightarrow> string) \<Rightarrow> State \<Rightarrow> State" where
  "handleSubmit today rnd s =
     (if trim (FormState.plateNumber (form s)) = [] then s
      else resetForm today
             (s\<lparr>entries :=
                  (if editingTruthy s
                   then map (\<lambda>entry. if Some (Entry.id entry) = editingId s then newEntry rnd s
                                      else entry) (entries s)
                   else newEntry rnd s # entries s)\<rparr>))"

definition handleEdit :: "string \<Rightarrow> State \<Rightarrow> State" where
  "handleEdit i s =
     (case find (\<lambda>item. Entry.id item = i) (entries s) of
        None \<Rightarrow> s
      | Some entry \<Rightarrow>
          s\<lparr>form :=
              \<lparr>FormState.plateNumber = Entry.plateNumber entry,
               FormState.yukBilan = toString (Entry.yukBilan entry),
               FormState.yuksiz = toString (Entry.yuksiz entry),
               FormState.date = Entry.date entry,
               FormState.summa = Entry.price entry,
               FormState.checkNumber = Entry.checkNumber entry\<rparr>,
            editingId := Some i\<rparr>)"

definition handleDelete :: "string \<Rightarrow> string \<Rightarrow> State \<Rightarrow> State" where
  "handleDelete today i s =
     (let s' = s\<lparr>entries := filter (\<lambda>entry. Entry.id entry \<noteq> i) (entries s)\<rparr>
      in if editingId s = Some i then resetForm today s' else s')"

definition handleRelay :: "string \<Rightarrow> (nat \<Rightarrow> string) \<Rightarrow> State \<Rightarrow> State" where
  "handleRelay today rnd s =
     resetForm today (s\<lparr>entries := seedsWithIds rnd, searchTerm := ''''\<rparr>)"

subsection \<open>Highlighting\<close>

text \<open>
  \<^verbatim>\<open>Canonicalize\<close> of a case-insensitive regular expression without the \<^verbatim>\<open>u\<close> flag: the
  upper case of the code unit when that is one code unit. The micro sign and y with
  diaeresis, whose upper case lies beyond U+00FF and is the upper case of no other code
  unit of the range, stand for themselves.
\<close>

definition canonicalize :: "char \<Rightarrow> char" where
  "canonicalize c =
     (if (97 \<le> codeUnit c \<and> codeUnit c \<le> 122)
         \<or> (224 \<le> codeUnit c \<and> codeUnit c \<le> 254 \<and> codeUnit c \<noteq> 247)
      then char_of (codeUnit c - 32) else c)"

text \<open>
  The patterns of \<^verbatim>\<open>new RegExp(source, 'gi')\<close> that the page builds: one capturing group
  around a sequence of atoms, each a pattern character or a backslash before a syntax
  character. \<open>compileRegExp\<close> returns the text such a pattern matches literally, and
  \<open>None\<close> for a pattern of any other shape, which the embedding does not interpret.
\<close>

fun literalAtoms :: "string \<Rightarrow> string option" where
  "literalAtoms [] = Some []"
| "literalAtoms (c # cs) =
     (if c = backslash then
        (case cs of
           [] \<Rightarrow> None
         | d # ds \<Rightarrow>
             if d \<in> set syntaxCharacters then map_option ((#) d) (literalAtoms ds) else None)
      else if c \<in> set syntaxCharacters then None
      else map_option ((#) c) (literalAtoms cs))"

definition compileRegExp :: "string \<Rightarrow> string option" where
  "compileRegExp source =
     (case source of
        [] \<Rightarrow> None
      | c # r \<Rightarrow>
          if c = CHR ''('' \<and> r \<noteq> [] \<and> last r = CHR '')'' then literalAtoms (butlast r)
          else None)"

text \<open>The pattern matches at the head of \<open>rest\<close>, ignoring case.\<close>

definition matchesAt :: "string \<Rightarrow> string \<Rightarrow> bool" where
  "matchesAt lit rest \<longleftrightarrow>
     length lit \<le> length rest
     \<and> map canonicalize (take (length lit) rest) = map canonicalize lit"

text \<open>
  The loop of \<^verbatim>\<open>RegExp.prototype[Symbol.split]\<close>: \<open>piece\<close> is the text between the end
  \<open>p\<close> of the last match and the position \<open>q\<close>, \<open>rest\<close> the text from \<open>q\<close> on. A match
  that ends at \<open>p\<close> (an empty match with an empty piece) is skipped; any other match
  closes the piece and pushes the text of the capturing group.
\<close>

function splitLoop :: "string \<Rightarrow> string \<Rightarrow> string \<Rightarrow> string list" where
  "splitLoop lit piece [] = [piece]"
| "splitLoop lit piece (c # cs) =
     (if matchesAt lit (c # cs) \<and> \<not> (lit = [] \<and> piece = [])
      then piece # take (length lit) (c # cs) # splitLoop lit [] (drop (length lit) (c # cs))
      else splitLoop lit (piece @ [c]) cs)"
  by pat_completeness auto
termination
proof (relation "measure (\<lambda>(lit, piece, rest). 2 * length rest + (if piece = [] then 0 else 1))")
  fix lit piece :: string and c cs
  assume "matchesAt lit (c # cs) \<and> \<not> (lit = [] \<and> piece = [])"
  then show "((lit, [], drop (length lit) (c # cs)), lit, piece, c # cs)
      \<in> measure (\<lambda>(lit, piece, rest). 2 * length rest + (if piece = [] then 0 else 1))"
    by (cases lit) auto
qed auto

declare splitLoop.simps(2) [simp del]

text \<open>\<^verbatim>\<open>value.split(regex)\<close> for the compiled pattern\<close>

definition split_regex :: "string \<Rightarrow> string \<Rightarrow> string list" where
  "split_regex lit valu =
     (if valu = [] then (if matchesAt lit [] then [] else [[]])
      else splitLoop lit [] valu)"

text \<open>
  What \<^verbatim>\<open>highlightMatch\<close> returns: the text itself, or one \<^verbatim>\<open>span\<close> for each segment,
  with the flag \<^verbatim>\<open>isMatch\<close> that selects the red class.
\<close>

datatype rendered = Plain string | Spans "(string \<times> bool) list"

definition highlightMatch :: "State \<Rightarrow> string \<Rightarrow> rendered option" where
  "highlightMatch s valu =
     (if searchTermLower s = [] then Some (Plain valu)
      else
        case compileRegExp (''('' @ escapeRegExp (searchTermLower s) @ '')'') of
          None \<Rightarrow> None
        | Some regex \<Rightarrow>
            Some (Spans (map (\<lambda>segment. (segment, toLowerCase segment = searchTermLower s))
                             (split_regex regex valu))))"

subsection \<open>The states the page can be in\<close>

text \<open>
  The state after mounting, and after any sequence of events: typing into a field of the
  form or into the search box, Clear, submit, Edit and Delete, Relay. Edit and Delete are
  taken with any id, of which the page issues the ids of the rows it displays. Print does
  not touch the state, and Reload mounts the page anew.
\<close>

inductive reachable :: "State \<Rightarrow> bool" where
  mount: "(\<And>k. isGeneratedId (rnd k)) \<Longrightarrow> reachable (initialState today rnd)"
| input: "reachable s \<Longrightarrow> reachable (handleInputChange fld v s)"
| search: "reachable s \<Longrightarrow> reachable (setSearchTerm v s)"
| clear: "reachable s \<Longrightarrow> reachable (resetForm today s)"
| submit: "reachable s \<Longrightarrow> (\<And>k. isGeneratedId (rnd k)) \<Longrightarrow> reachable (handleSubmit today rnd s)"
| edit: "reachable s \<Longrightarrow> reachable (handleEdit i s)"
| delete: "reachable s \<Longrightarrow> reachable (handleDelete today i s)"
| relay: "reachable s \<Longrightarrow> (\<And>k. isGeneratedId (rnd k)) \<Longrightarrow> reachable (handleRelay today rnd s)"

subsection \<open>The properties the specification names\<close>

text \<open>The net weight of the specification: \<open>max(grossWeight - emptyWeight, 0)\<close>.\<close>

definition netOfStored :: "Entry \<Rightarrow> jsnum" where
  "netOfStored entry =
     (let diff = jsSub (Entry.yukBilan entry) (Entry.yuksiz entry)
      in if gtZero diff then diff else Fin 0 0)"

subsection \<open>Sample states\<close>

text \<open>The page just after mounting, and after Edit on its second row.\<close>

definition sampleMounted :: State where
  "sampleMounted = initialState ''2024-11-20'' sampleIds"

definition sampleEditing :: State where
  "sampleEditing = handleEdit ''z8m4c7w0'' sampleMounted"


text \<open>
  The first call of \<^verbatim>\<open>generateId()\<close> at mounting met a random number of zero, so
  the first row has the empty id; Edit is then pressed on that row.
\<close>

definition sampleIdsZero :: "nat \<Rightarrow> string" where
  "sampleIdsZero k = (if k = 0 then '''' else ''z8m4c7w0'')"

definition sampleEditingZero :: State where
  "sampleEditingZero = handleEdit '''' (initialState ''2024-11-20'' sampleIdsZero)"

text \<open>Weights that are not numerals; the example scenario of the specification; a padded check number.\<close>

definition sampleGarbage :: State where
  "sampleGarbage =
     handleInputChange Yuksiz ''abc''
       (handleInputChange YukBilan ''12 kg''
          (handleInputChange PlateNumber ''01A001AA'' sampleMounted))"

definition sampleScenario :: State where
  "sampleScenario =
     handleInputChange Yuksiz ''3000''
       (handleInputChange YukBilan ''10000''
          (handleInputChange PlateNumber ''01A001AA'' sampleMounted))"

definition samplePadded :: State where
  "samplePadded = handleInputChange CheckNumber '' A1 '' sampleScenario"

text \<open>Searches typed into the search box of the mounted page.\<close>

definition sampleSearch :: State where
  "sampleSearch = setSearchTerm '' 30b555bb '' sampleMounted"

definition sampleNoMatch :: State where
  "sampleNoMatch = setSearchTerm ''zz-no-match'' sampleMounted"

definition sample550 :: State where
  "sample550 = setSearchTerm ''550'' sampleMounted"

definition sampleA1 :: State where
  "sampleA1 = setSearchTerm '' A1'' sampleMounted"

subsection \<open>The invariant of the edit workflow\<close>

text \<open>The id being edited, when there is one, is the id of a stored entry.\<close>

definition editingPresent :: "State \<Rightarrow> bool" where
  "editingPresent s \<longleftrightarrow>
     (case editingId s of None \<Rightarrow> True | Some i \<Rightarrow> i \<in> set (map Entry.id (entries s)))"

subsection \<open>The shape of a split\<close>

text \<open>
  A list of segments in which pieces that hold no occurrence of the pattern, ignoring
  case, alternate with segments that equal the pattern, ignoring case; the first and the
  last segment are pieces.
\<close>

fun wellSplit :: "string \<Rightarrow> string list \<Rightarrow> bool" where
  "wellSplit lit [] = False"
| "wellSplit lit [p] = (\<not> sublist (toLowerCase lit) (toLowerCase p))"
| "wellSplit lit (p # m # r) =
     (\<not> sublist (toLowerCase lit) (toLowerCase p) \<and> toLowerCase m = toLowerCase lit
      \<and> wellSplit lit r)"

section \<open>Unfolding the constants of the page\<close>

lemma seedsWithIds_eq:
  "seedsWithIds rnd =
     [\<lparr>Entry.id = rnd 0, Entry.plateNumber = ''90A111AA'', Entry.yukBilan = num 48000,
       Entry.yuksiz = num 12500, Entry.sofVazin = num 35500, Entry.date = ''2024-11-18'',
       Entry.price = ''30,000'', Entry.checkNumber = ''CHK-2024-9081''\<rparr>,
      \<lparr>Entry.id = rnd 1, Entry.plateNumber = ''30B555BB'', Entry.yukBilan = num 52500,
       Entry.yuksiz = num 14000, Entry.sofVazin = num 38500, Entry.date = ''2024-11-19'',
       Entry.price = ''40,000'', Entry.checkNumber = ''CHK-2024-9124''\<rparr>]"
  by (simp add: seedsWithIds_def seedEntries_def upt_rec)

lemma makeInitialFormState_eq:
  "makeInitialFormState today =
     \<lparr>FormState.plateNumber = '''', FormState.yukBilan = '''', FormState.yuksiz = '''',
      FormState.date = today, FormState.summa = ''30,000'', FormState.checkNumber = ''''\<rparr>"
  by (simp add: makeInitialFormState_def priceOptions_def)

lemma sampleIds_generated: "isGeneratedId (sampleIds k)"
  by (simp add: sampleIds_def isGeneratedId_def isDigit_def codeUnit_def)

lemma sampleMounted_eq:
  "sampleMounted =
     \<lparr>entries =
        [\<lparr>Entry.id = ''k3x9p2q1'', Entry.plateNumber = ''90A111AA'', Entry.yukBilan = num 48000,
          Entry.yuksiz = num 12500, Entry.sofVazin = num 35500, Entry.date = ''2024-11-18'',
          Entry.price = ''30,000'', Entry.checkNumber = ''CHK-2024-9081''\<rparr>,
         \<lparr>Entry.id = ''z8m4c7w0'', Entry.plateNumber = ''30B555BB'', Entry.yukBilan = num 52500,
          Entry.yuksiz = num 14000, Entry.sofVazin = num 38500, Entry.date = ''2024-11-19'',
          Entry.price = ''40,000'', Entry.checkNumber = ''CHK-2024-9124''\<rparr>],
      form = makeInitialFormState ''2024-11-20'', editingId = None, searchTerm = ''''\<rparr>"
  by (simp add: sampleMounted_def initialState_def seedsWithIds_eq sampleIds_def)

lemma sampleEditing_eq:
  "sampleEditing =
     sampleMounted
       \<lparr>form :=
          \<lparr>FormState.plateNumber = ''30B555BB'', FormState.yukBilan = toString (num 52500),
           FormState.yuksiz = toString (num 14000), FormState.date = ''2024-11-19'',
           FormState.summa = ''40,000'', FormState.checkNumber = ''CHK-2024-9124''\<rparr>,
        editingId := Some ''z8m4c7w0''\<rparr>"
  by (simp add: sampleEditing_def handleEdit_def sampleMounted_eq)

lemma sampleMounted_reachable: "reachable sampleMounted"
  unfolding sampleMounted_def by (rule reachable.mount) (rule sampleIds_generated)

lemma sampleEditing_reachable: "reachable sampleEditing"
  unfolding sampleEditing_def by (rule reachable.edit) (rule sampleMounted_reachable)

lemma handleSubmit_entries:
  assumes "trim (FormState.plateNumber (form s)) \<noteq> []"
  shows "handleSubmit today rnd s =
     s\<lparr>entries :=
          (if editingTruthy s
           then map (\<lambda>entry. if Some (Entry.id entry) = editingId s then newEntry rnd s else entry)
                  (entries s)
           else newEntry rnd s # entries s),
       form := makeInitialFormState today, editingId := None\<rparr>"
  using assms by (simp add: handleSubmit_def resetForm_def)



lemma sampleIdsZero_generated: "isGeneratedId (sampleIdsZero k)"
  by (simp add: sampleIdsZero_def isGeneratedId_def isDigit_def codeUnit_def)

lemma sampleEditingZero_reachable: "reachable sampleEditingZero"
  unfolding sampleEditingZero_def
  by (intro reachable.edit reachable.mount sampleIdsZero_generated)

lemma sampleEditingZero_eq:
  "entries sampleEditingZero = seedsWithIds sampleIdsZero"
  "editingId sampleEditingZero = Some ''''"
  "FormState.plateNumber (form sampleEditingZero) = ''90A111AA''"
  by (simp_all add: sampleEditingZero_def handleEdit_def initialState_def seedsWithIds_eq
      sampleIdsZero_def)

lemma sampleGarbage_eq:
  "form sampleGarbage =
     \<lparr>FormState.plateNumber = ''01A001AA'', FormState.yukBilan = ''12 kg'', FormState.yuksiz = ''abc'',
      FormState.date = ''2024-11-20'', FormState.summa = ''30,000'', FormState.checkNumber = ''''\<rparr>"
  "entries sampleGarbage = entries sampleMounted"
  "editingId sampleGarbage = None"
  by (simp_all add: sampleGarbage_def handleInputChange_def sampleMounted_eq makeInitialFormState_eq)

lemma sampleScenario_eq:
  "form sampleScenario =
     \<lparr>FormState.plateNumber = ''01A001AA'', FormState.yukBilan = ''10000'', FormState.yuksiz = ''3000'',
      FormState.date = ''2024-11-20'', FormState.summa = ''30,000'', FormState.checkNumber = ''''\<rparr>"
  "entries sampleScenario = entries sampleMounted"
  "editingId sampleScenario = None"
  by (simp_all add: sampleScenario_def handleInputChange_def sampleMounted_eq makeInitialFormState_eq)

lemma samplePadded_eq:
  "form samplePadded =
     \<lparr>FormState.plateNumber = ''01A001AA'', FormState.yukBilan = ''10000'', FormState.yuksiz = ''3000'',
      FormState.date = ''2024-11-20'', FormState.summa = ''30,000'', FormState.checkNumber = '' A1 ''\<rparr>"
  "entries samplePadded = entries sampleMounted"
  "editingId samplePadded = None"
  by (simp_all add: samplePadded_def handleInputChange_def sampleScenario_eq)

lemma samplePadded_reachable: "reachable samplePadded"
  unfolding samplePadded_def sampleScenario_def
  by (intro reachable.input sampleMounted_reachable)

lemma plate_not_blank: "\<not> list_all isWhiteSpace ''01A001AA''"
  by (simp add: isWhiteSpace_def codeUnit_def)

lemma padded_not_blank: "\<not> list_all isWhiteSpace '' A1 ''"
  by (simp add: isWhiteSpace_def codeUnit_def)

section \<open>Blank plate numbers\<close>

lemma trim_Nil_iff: "trim s = [] \<longleftrightarrow> list_all isWhiteSpace s"
proof
  assume "trim s = []"
  then have all: "\<forall>x \<in> set (dropWhile isWhiteSpace s). isWhiteSpace x"
    by (simp add: trim_def dropWhile_eq_Nil_conv)
  have "dropWhile isWhiteSpace s = []"
  proof (rule ccontr)
    assume ne: "dropWhile isWhiteSpace s \<noteq> []"
    then have "\<not> isWhiteSpace (hd (dropWhile isWhiteSpace s))"
      by (rule hd_dropWhile)
    with all ne show False
      by simp
  qed
  then show "list_all isWhiteSpace s"
    by (simp add: dropWhile_eq_Nil_conv list_all_iff)
next
  assume "list_all isWhiteSpace s"
  then have d: "dropWhile isWhiteSpace s = []"
    by (simp add: dropWhile_eq_Nil_conv list_all_iff)
  show "trim s = []"
    unfolding trim_def d by simp
qed

text \<open>
  C2. When the plate number of the form is empty or consists of white space only, submit
  returns the state it was given: the entries, the form, the id being edited and the
  search term are all unchanged.
\<close>

theorem submit_blank_plate_unchanged:
  assumes "list_all isWhiteSpace (FormState.plateNumber (form s))"
  shows "handleSubmit today rnd s = s"
  using assms by (simp add: handleSubmit_def trim_Nil_iff)

theorem submit_blank_plate_unchanged_witness:
  "list_all isWhiteSpace
     (FormState.plateNumber (form (handleInputChange PlateNumber ''  ''
        sampleMounted)))
   \<and> handleSubmit ''2024-11-21'' sampleIds
         (handleInputChange PlateNumber ''  '' sampleMounted)
       = handleInputChange PlateNumber ''  '' sampleMounted"
proof -
  have h: "list_all isWhiteSpace
     (FormState.plateNumber (form (handleInputChange PlateNumber ''  ''
        sampleMounted)))"
    by (simp add: handleInputChange_def isWhiteSpace_def codeUnit_def)
  from submit_blank_plate_unchanged [OF h] h show ?thesis
    by simp
qed

section \<open>Delete\<close>

text \<open>
  C6. Delete(id) keeps, in their order, exactly the entries whose id differs from the
  given one: the entry with that id is removed and every other entry stays where it
  was; when no entry has the id the entries are unchanged. The search term is untouched.
  When the form was editing that id, the form is reset to the Idle-New draft (empty
  fields, today's date, the first price option) and the id being edited is cleared;
  otherwise the form and the id being edited are untouched.
\<close>

theorem delete_removes_matching:
  "entries (handleDelete today i s) = filter (\<lambda>entry. Entry.id entry \<noteq> i) (entries s)
   \<and> (entries s = pre @ e # post \<and> Entry.id e = i \<and> (\<forall>x \<in> set (pre @ post). Entry.id x \<noteq> i)
        \<longrightarrow> entries (handleDelete today i s) = pre @ post)
   \<and> ((\<forall>x \<in> set (entries s). Entry.id x \<noteq> i) \<longrightarrow> entries (handleDelete today i s) = entries s)
   \<and> searchTerm (handleDelete today i s) = searchTerm s
   \<and> (editingId s = Some i \<longrightarrow>
        editingId (handleDelete today i s) = None
        \<and> form (handleDelete today i s) =
            \<lparr>FormState.plateNumber = '''', FormState.yukBilan = '''', FormState.yuksiz = '''',
             FormState.date = today, FormState.summa = ''30,000'', FormState.checkNumber = ''''\<rparr>)
   \<and> (editingId s \<noteq> Some i \<longrightarrow>
        editingId (handleDelete today i s) = editingId s
        \<and> form (handleDelete today i s) = form s)"
proof -
  have ent: "entries (handleDelete today i s) = filter (\<lambda>entry. Entry.id entry \<noteq> i) (entries s)"
    by (simp add: handleDelete_def resetForm_def Let_def)
  have one: "entries (handleDelete today i s) = pre @ post"
    if "entries s = pre @ e # post" "Entry.id e = i" "\<forall>x \<in> set (pre @ post). Entry.id x \<noteq> i"
    using that by (simp add: ent filter_id_conv)
  have none: "entries (handleDelete today i s) = entries s"
    if "\<forall>x \<in> set (entries s). Entry.id x \<noteq> i"
    using that by (simp add: ent filter_id_conv)
  have rest: "searchTerm (handleDelete today i s) = searchTerm s"
    by (simp add: handleDelete_def resetForm_def Let_def)
  have editing: "editingId (handleDelete today i s) = None
        \<and> form (handleDelete today i s) =
            \<lparr>FormState.plateNumber = '''', FormState.yukBilan = '''', FormState.yuksiz = '''',
             FormState.date = today, FormState.summa = ''30,000'', FormState.checkNumber = ''''\<rparr>"
    if "editingId s = Some i"
    using that by (simp add: handleDelete_def resetForm_def Let_def makeInitialFormState_eq)
  have other: "editingId (handleDelete today i s) = editingId s
        \<and> form (handleDelete today i s) = form s"
    if "editingId s \<noteq> Some i"
    using that by (simp add: handleDelete_def Let_def)
  from ent one none rest editing other show ?thesis
    by blast
qed

theorem delete_removes_matching_witness:
  "entries (handleDelete ''2024-11-21'' ''z8m4c7w0'' sampleEditing) = [hd (entries sampleMounted)]
   \<and> editingId sampleEditing = Some ''z8m4c7w0''
   \<and> editingId (handleDelete ''2024-11-21'' ''z8m4c7w0'' sampleEditing) = None
   \<and> form (handleDelete ''2024-11-21'' ''z8m4c7w0'' sampleEditing) =
        \<lparr>FormState.plateNumber = '''', FormState.yukBilan = '''', FormState.yuksiz = '''',
         FormState.date = ''2024-11-21'', FormState.summa = ''30,000'', FormState.checkNumber = ''''\<rparr>
   \<and> entries (handleDelete ''2024-11-21'' ''nosuchid'' sampleEditing) = entries sampleEditing
   \<and> editingId (handleDelete ''2024-11-21'' ''nosuchid'' sampleEditing) = Some ''z8m4c7w0''
   \<and> form (handleDelete ''2024-11-21'' ''nosuchid'' sampleEditing) = form sampleEditing"
proof -
  have ed: "editingId sampleEditing = Some ''z8m4c7w0''"
    by (simp add: sampleEditing_eq)
  have shape: "entries sampleEditing = [hd (entries sampleMounted)] @ last (entries sampleMounted) # []
      \<and> Entry.id (last (entries sampleMounted)) = ''z8m4c7w0''
      \<and> (\<forall>x \<in> set ([hd (entries sampleMounted)] @ []). Entry.id x \<noteq> ''z8m4c7w0'')"
    by (simp add: sampleEditing_eq sampleMounted_eq)
  have absent: "\<forall>x \<in> set (entries sampleEditing). Entry.id x \<noteq> ''nosuchid''"
    by (simp add: sampleEditing_eq sampleMounted_eq)
  have other: "editingId sampleEditing \<noteq> Some ''nosuchid''"
    by (simp add: ed)
  from delete_removes_matching
         [of "''2024-11-21''" "''z8m4c7w0''" sampleEditing "[hd (entries sampleMounted)]"
             "last (entries sampleMounted)" "[]"]
       delete_removes_matching
         [of "''2024-11-21''" "''nosuchid''" sampleEditing "[]" "hd (entries sampleMounted)" "[]"]
       ed shape absent other
  show ?thesis
    by simp
qed

section \<open>Relay\<close>

text \<open>
  C7, as the code has it. Relay replaces the entries with the two seed records, with
  their field values and in their order, the first with the id that the first call of
  \<^verbatim>\<open>generateId()\<close> returns and the second with that of the second call; it empties
  the search term and resets the form to the Idle-New draft. Nothing compares the new
  ids with earlier ones.
\<close>

theorem relay_restores_seeds:
  "handleRelay today rnd s =
     \<lparr>entries =
        [\<lparr>Entry.id = rnd 0, Entry.plateNumber = ''90A111AA'', Entry.yukBilan = num 48000,
          Entry.yuksiz = num 12500, Entry.sofVazin = num 35500, Entry.date = ''2024-11-18'',
          Entry.price = ''30,000'', Entry.checkNumber = ''CHK-2024-9081''\<rparr>,
         \<lparr>Entry.id = rnd 1, Entry.plateNumber = ''30B555BB'', Entry.yukBilan = num 52500,
          Entry.yuksiz = num 14000, Entry.sofVazin = num 38500, Entry.date = ''2024-11-19'',
          Entry.price = ''40,000'', Entry.checkNumber = ''CHK-2024-9124''\<rparr>],
      form =
        \<lparr>FormState.plateNumber = '''', FormState.yukBilan = '''', FormState.yuksiz = '''',
         FormState.date = today, FormState.summa = ''30,000'', FormState.checkNumber = ''''\<rparr>,
      editingId = None, searchTerm = ''''\<rparr>"
  by (simp add: handleRelay_def resetForm_def seedsWithIds_eq makeInitialFormState_eq)

text \<open>
  The claim as stated fails: when the random source repeats itself, Relay gives the
  seed records the very ids that the entries of the mounted page already carried.
\<close>

theorem relay_id_collides:
  "reachable sampleMounted
   \<and> isGeneratedId (sampleIds 0) \<and> isGeneratedId (sampleIds 1)
   \<and> map Entry.id (entries sampleMounted) = [''k3x9p2q1'', ''z8m4c7w0'']
   \<and> map Entry.id (entries (handleRelay ''2024-11-20'' sampleIds sampleMounted))
       = [''k3x9p2q1'', ''z8m4c7w0'']
   \<and> set (map Entry.id (entries (handleRelay ''2024-11-20'' sampleIds sampleMounted)))
       \<inter> set (map Entry.id (entries sampleMounted)) \<noteq> {}"
proof -
  have before: "map Entry.id (entries sampleMounted) = [''k3x9p2q1'', ''z8m4c7w0'']"
    by (simp add: sampleMounted_eq)
  have after: "map Entry.id (entries (handleRelay ''2024-11-20'' sampleIds sampleMounted))
      = [''k3x9p2q1'', ''z8m4c7w0'']"
    by (simp add: handleRelay_def resetForm_def seedsWithIds_eq sampleIds_def)
  have meet: "set (map Entry.id (entries (handleRelay ''2024-11-20'' sampleIds sampleMounted)))
       \<inter> set (map Entry.id (entries sampleMounted)) \<noteq> {}"
    unfolding before after by simp
  from sampleMounted_reachable before after meet sampleIds_generated show ?thesis
    by (intro conjI)
qed

section \<open>The stored net weight\<close>

text \<open>
  When neither weight text of the form holds a comma, the entry that submit builds has
  the net weight of its own stored weights.
\<close>

lemma net_weight_without_commas:
  assumes "CHR '','' \<notin> set (FormState.yukBilan (form s))" "CHR '','' \<notin> set (FormState.yuksiz (form s))"
  shows "Entry.sofVazin (newEntry rnd s) = netOfStored (newEntry rnd s)"
proof -
  have "removeCommas (FormState.yukBilan (form s)) = FormState.yukBilan (form s)"
       "removeCommas (FormState.yuksiz (form s)) = FormState.yuksiz (form s)"
    using assms by (auto simp: removeCommas_def filter_id_conv)
  then show ?thesis
    by (simp add: newEntry_def netWeight_def computeNetWeight_def netOfStored_def)
qed

lemma eval_comma:
  "Number ''1,000'' = NaN" "Number ''500'' = Fin 5 2" "computeNetWeight ''1,000'' ''500'' = Fin 5 2"
  "num 500 = Fin 5 2" "trim ''01A001AA'' = ''01A001AA''"
  by code_simp+



section \<open>Submit\<close>

text \<open>
  What a submit with a non-blank plate does. With no id being edited the new entry is put
  in front of the entries. With a non-empty id being edited the entries with that id are
  replaced where they stand, which is one entry when no other entry shares the id. The
  form is reset to the Idle-New draft in either case.
\<close>

lemma submit_commits:
  assumes "\<not> list_all isWhiteSpace (FormState.plateNumber (form s))"
  shows "(editingId s = None \<longrightarrow>
            entries (handleSubmit today rnd s) = newEntry rnd s # entries s)
       \<and> (editingId s = Some i \<and> i \<noteq> [] \<longrightarrow>
            entries (handleSubmit today rnd s)
              = map (\<lambda>entry. if Entry.id entry = i then newEntry rnd s else entry) (entries s)
            \<and> length (entries (handleSubmit today rnd s)) = length (entries s))
       \<and> (editingId s = Some i \<and> i \<noteq> [] \<and> entries s = pre @ old # post \<and> Entry.id old = i
            \<and> (\<forall>x \<in> set (pre @ post). Entry.id x \<noteq> i) \<longrightarrow>
            entries (handleSubmit today rnd s) = pre @ newEntry rnd s # post)
       \<and> form (handleSubmit today rnd s) =
            \<lparr>FormState.plateNumber = '''', FormState.yukBilan = '''', FormState.yuksiz = '''',
             FormState.date = today, FormState.summa = ''30,000'', FormState.checkNumber = ''''\<rparr>
       \<and> editingId (handleSubmit today rnd s) = None
       \<and> searchTerm (handleSubmit today rnd s) = searchTerm s"
proof -
  from assms have nb: "trim (FormState.plateNumber (form s)) \<noteq> []"
    by (simp add: trim_Nil_iff)
  note sub = handleSubmit_entries [OF nb, of today rnd]
  have create: "entries (handleSubmit today rnd s) = newEntry rnd s # entries s"
    if "editingId s = None"
    using that by (simp add: sub editingTruthy_def)
  have update: "entries (handleSubmit today rnd s)
              = map (\<lambda>entry. if Entry.id entry = i then newEntry rnd s else entry) (entries s)"
    if "editingId s = Some i" "i \<noteq> []"
    using that by (simp add: sub editingTruthy_def)
  have inplace: "entries (handleSubmit today rnd s) = pre @ newEntry rnd s # post"
    if "editingId s = Some i" "i \<noteq> []" "entries s = pre @ old # post" "Entry.id old = i"
       "\<forall>x \<in> set (pre @ post). Entry.id x \<noteq> i"
  proof -
    have "map (\<lambda>entry. if Entry.id entry = i then newEntry rnd s else entry) xs = xs"
      if "\<forall>x \<in> set xs. Entry.id x \<noteq> i" for xs
      using that by (induction xs) auto
    with that show ?thesis
      by (simp add: update)
  qed
  have draft: "form (handleSubmit today rnd s) =
            \<lparr>FormState.plateNumber = '''', FormState.yukBilan = '''', FormState.yuksiz = '''',
             FormState.date = today, FormState.summa = ''30,000'', FormState.checkNumber = ''''\<rparr>"
    by (simp add: sub makeInitialFormState_eq)
  have ed: "editingId (handleSubmit today rnd s) = None"
    by (simp add: sub)
  have st: "searchTerm (handleSubmit today rnd s) = searchTerm s"
    by (simp add: sub)
  have len: "length (entries (handleSubmit today rnd s)) = length (entries s)"
    if "editingId s = Some i" "i \<noteq> []"
    using that by (simp add: update)
  from create update len inplace draft ed st show ?thesis
    by blast
qed

lemma trim_plate_samples:
  "trim ''90A111AA'' = ''90A111AA''" "trim ''30B555BB'' = ''30B555BB''"
  by code_simp+

text \<open>
  C3. The claim asks that a submit while \<^verbatim>\<open>editingId = id\<close>, with an entry of that id
  stored, replace that entry in place and leave the number of entries unchanged. The
  page breaks it when the id is the empty string, which \<^verbatim>\<open>generateId()\<close> returns for a
  random number of zero: \<^verbatim>\<open>editingId ?? generateId()\<close> keeps the empty id, but the
  condition \<^verbatim>\<open>editingId ? ... : ...\<close> takes it for no id at all, so the new entry is
  put in front and the old one stays. Two entries become three, two of them with the
  empty id.
\<close>

theorem update_of_empty_id_prepends:
  "reachable sampleEditingZero
   \<and> editingId sampleEditingZero = Some ''''
   \<and> map Entry.id (entries sampleEditingZero) = ['''', ''z8m4c7w0'']
   \<and> entries (handleSubmit ''2024-11-21'' sampleIds sampleEditingZero)
       = newEntry sampleIds sampleEditingZero # entries sampleEditingZero
   \<and> length (entries (handleSubmit ''2024-11-21'' sampleIds sampleEditingZero)) = 3
   \<and> map Entry.id (entries (handleSubmit ''2024-11-21'' sampleIds sampleEditingZero))
       = ['''', '''', ''z8m4c7w0'']"
proof -
  have nb: "trim (FormState.plateNumber (form sampleEditingZero)) \<noteq> []"
    by (simp add: sampleEditingZero_eq trim_plate_samples)
  have ids: "map Entry.id (entries sampleEditingZero) = ['''', ''z8m4c7w0'']"
    by (simp add: sampleEditingZero_eq seedsWithIds_eq sampleIdsZero_def)
  have ent: "entries (handleSubmit ''2024-11-21'' sampleIds sampleEditingZero)
       = newEntry sampleIds sampleEditingZero # entries sampleEditingZero"
    by (simp add: handleSubmit_entries [OF nb] editingTruthy_def sampleEditingZero_eq)
  have len: "length (entries (handleSubmit ''2024-11-21'' sampleIds sampleEditingZero)) = 3"
    by (simp add: ent sampleEditingZero_eq seedsWithIds_eq)
  have ids': "map Entry.id (entries (handleSubmit ''2024-11-21'' sampleIds sampleEditingZero))
       = ['''', '''', ''z8m4c7w0'']"
    by (simp add: ent ids) (simp add: newEntry_def sampleEditingZero_eq)
  from sampleEditingZero_reachable sampleEditingZero_eq(2) ids ent len ids' show ?thesis
    by (intro conjI)
qed

section \<open>Weights that do not parse\<close>

text \<open>
  C8. On a submit with a non-blank plate, a loaded-weight text that \<^verbatim>\<open>Number\<close> maps to
  NaN is stored as 0, and so is an empty-weight text that \<^verbatim>\<open>Number\<close> maps to NaN; the
  submission is not rejected, the entry is committed: put in front when no id is being
  edited, put in the place of the edited entry otherwise.
\<close>

theorem unparsable_weight_is_zero:
  assumes "\<not> list_all isWhiteSpace (FormState.plateNumber (form s))"
  shows "(Number (FormState.yukBilan (form s)) = NaN \<longrightarrow> Entry.yukBilan (newEntry rnd s) = Fin 0 0)
       \<and> (Number (FormState.yuksiz (form s)) = NaN \<longrightarrow> Entry.yuksiz (newEntry rnd s) = Fin 0 0)
       \<and> entries (handleSubmit today rnd s) =
           (if editingTruthy s
            then map (\<lambda>entry. if Some (Entry.id entry) = editingId s then newEntry rnd s else entry)
                   (entries s)
            else newEntry rnd s # entries s)"
proof -
  from assms have nb: "trim (FormState.plateNumber (form s)) \<noteq> []"
    by (simp add: trim_Nil_iff)
  have "Entry.yukBilan (newEntry rnd s) = Fin 0 0" if "Number (FormState.yukBilan (form s)) = NaN"
    using that by (simp add: newEntry_def orZero_def)
  moreover
  have "Entry.yuksiz (newEntry rnd s) = Fin 0 0" if "Number (FormState.yuksiz (form s)) = NaN"
    using that by (simp add: newEntry_def orZero_def)
  moreover
  have "entries (handleSubmit today rnd s) =
           (if editingTruthy s
            then map (\<lambda>entry. if Some (Entry.id entry) = editingId s then newEntry rnd s else entry)
                   (entries s)
            else newEntry rnd s # entries s)"
    by (simp add: handleSubmit_entries [OF nb])
  ultimately show ?thesis
    by blast
qed

lemma eval_garbage: "Number ''12 kg'' = NaN" "Number ''abc'' = NaN"
  by code_simp+

theorem unparsable_weight_is_zero_witness:
  "Number (FormState.yukBilan (form sampleGarbage)) = NaN
   \<and> Number (FormState.yuksiz (form sampleGarbage)) = NaN
   \<and> Entry.yukBilan (hd (entries (handleSubmit ''2024-11-21'' sampleIds sampleGarbage))) = Fin 0 0
   \<and> Entry.yuksiz (hd (entries (handleSubmit ''2024-11-21'' sampleIds sampleGarbage))) = Fin 0 0
   \<and> length (entries (handleSubmit ''2024-11-21'' sampleIds sampleGarbage)) = 3"
proof -
  have pl: "FormState.plateNumber (form sampleGarbage) = ''01A001AA''"
    by (simp add: sampleGarbage_eq)
  have nb: "\<not> list_all isWhiteSpace (FormState.plateNumber (form sampleGarbage))"
    unfolding pl by (rule plate_not_blank)
  have nan: "Number (FormState.yukBilan (form sampleGarbage)) = NaN"
       "Number (FormState.yuksiz (form sampleGarbage)) = NaN"
    by (simp_all add: sampleGarbage_eq eval_garbage)
  have create: "\<not> editingTruthy sampleGarbage"
    by (simp add: editingTruthy_def sampleGarbage_eq)
  have len: "length (entries sampleGarbage) = 2"
    by (simp add: sampleGarbage_eq sampleMounted_eq)
  from unparsable_weight_is_zero [OF nb, of sampleIds "''2024-11-21''"] nan create len
  show ?thesis
    by simp
qed

section \<open>The check number\<close>

text \<open>
  C9, as the code has it. On a submit with a non-blank plate, when the check number of
  the form is empty or white space only, the committed entry gets \<^verbatim>\<open>CHK-\<close> followed by
  the upper case of a generated id, which is not empty; otherwise it gets the check
  number of the form with its leading and trailing white space removed.
\<close>

theorem check_number_generated_or_trimmed:
  assumes "\<not> list_all isWhiteSpace (FormState.plateNumber (form s))"
  shows "(list_all isWhiteSpace (FormState.checkNumber (form s)) \<longrightarrow>
            Entry.checkNumber (newEntry rnd s)
              = ''CHK-'' @ toUpperCase (rnd (case editingId s of Some i \<Rightarrow> 0 | None \<Rightarrow> 1))
            \<and> Entry.checkNumber (newEntry rnd s) \<noteq> [])
       \<and> (\<not> list_all isWhiteSpace (FormState.checkNumber (form s)) \<longrightarrow>
            Entry.checkNumber (newEntry rnd s) = trim (FormState.checkNumber (form s)))
       \<and> entries (handleSubmit today rnd s) =
           (if editingTruthy s
            then map (\<lambda>entry. if Some (Entry.id entry) = editingId s then newEntry rnd s else entry)
                   (entries s)
            else newEntry rnd s # entries s)"
proof -
  from assms have nb: "trim (FormState.plateNumber (form s)) \<noteq> []"
    by (simp add: trim_Nil_iff)
  have blank: "Entry.checkNumber (newEntry rnd s)
              = ''CHK-'' @ toUpperCase (rnd (case editingId s of Some i \<Rightarrow> 0 | None \<Rightarrow> 1))
            \<and> Entry.checkNumber (newEntry rnd s) \<noteq> []"
    if "list_all isWhiteSpace (FormState.checkNumber (form s))"
  proof -
    from that have "trim (FormState.checkNumber (form s)) = []"
      by (simp add: trim_Nil_iff)
    then show ?thesis
      by (simp add: newEntry_def)
  qed
  have given: "Entry.checkNumber (newEntry rnd s) = trim (FormState.checkNumber (form s))"
    if "\<not> list_all isWhiteSpace (FormState.checkNumber (form s))"
  proof -
    from that have "trim (FormState.checkNumber (form s)) \<noteq> []"
      by (simp add: trim_Nil_iff)
    then show ?thesis
      by (simp add: newEntry_def)
  qed
  have commit: "entries (handleSubmit today rnd s) =
           (if editingTruthy s
            then map (\<lambda>entry. if Some (Entry.id entry) = editingId s then newEntry rnd s else entry)
                   (entries s)
            else newEntry rnd s # entries s)"
    by (simp add: handleSubmit_entries [OF nb])
  from blank given commit show ?thesis
    by blast
qed

lemma eval_scenario:
  "computeNetWeight ''10000'' ''3000'' = num 7000"
  "toUpperCase ''z8m4c7w0'' = ''Z8M4C7W0''"
  "trim '' A1 '' = ''A1''"
  by code_simp+

theorem check_number_generated_or_trimmed_witness:
  "Entry.checkNumber (hd (entries (handleSubmit ''2024-11-21'' sampleIds sampleScenario)))
     = ''CHK-Z8M4C7W0''
   \<and> Entry.sofVazin (hd (entries (handleSubmit ''2024-11-21'' sampleIds sampleScenario)))
     = num 7000
   \<and> Entry.checkNumber (hd (entries (handleSubmit ''2024-11-21'' sampleIds samplePadded)))
     = ''A1''"
proof -
  have pl: "FormState.plateNumber (form sampleScenario) = ''01A001AA''"
           "FormState.plateNumber (form samplePadded) = ''01A001AA''"
    by (simp_all add: sampleScenario_eq samplePadded_eq)
  have nb: "\<not> list_all isWhiteSpace (FormState.plateNumber (form sampleScenario))"
           "\<not> list_all isWhiteSpace (FormState.plateNumber (form samplePadded))"
    unfolding pl by (rule plate_not_blank)+
  have ck: "list_all isWhiteSpace (FormState.checkNumber (form sampleScenario))"
    by (simp add: sampleScenario_eq)
  have ck': "FormState.checkNumber (form samplePadded) = '' A1 ''"
    by (simp add: samplePadded_eq)
  have given: "\<not> list_all isWhiteSpace (FormState.checkNumber (form samplePadded))"
    unfolding ck' by (rule padded_not_blank)
  have create: "\<not> editingTruthy sampleScenario" "\<not> editingTruthy samplePadded"
    by (simp_all add: editingTruthy_def sampleScenario_eq samplePadded_eq)
  have net: "Entry.sofVazin (newEntry sampleIds sampleScenario) = num 7000"
    by (simp add: newEntry_def netWeight_def sampleScenario_eq eval_scenario)
  from check_number_generated_or_trimmed [OF nb(1), of sampleIds "''2024-11-21''"]
       check_number_generated_or_trimmed [OF nb(2), of sampleIds "''2024-11-21''"]
       ck given create net
  show ?thesis
    by (simp add: sampleScenario_eq sampleIds_def eval_scenario ck')
qed

text \<open>
  The claim as stated fails: the check number \<^verbatim>\<open>' A1 '\<close> is not kept as typed, the
  entry stores \<^verbatim>\<open>'A1'\<close>.
\<close>

theorem check_number_not_kept_verbatim:
  "reachable samplePadded
   \<and> FormState.checkNumber (form samplePadded) = '' A1 ''
   \<and> Entry.checkNumber (hd (entries (handleSubmit ''2024-11-21'' sampleIds samplePadded))) = ''A1''
   \<and> Entry.checkNumber (hd (entries (handleSubmit ''2024-11-21'' sampleIds samplePadded)))
       \<noteq> FormState.checkNumber (form samplePadded)"
proof -
  have nb: "trim (FormState.plateNumber (form samplePadded)) \<noteq> []"
    by (simp add: samplePadded_eq eval_comma)
  have ck: "FormState.checkNumber (form samplePadded) = '' A1 ''"
    by (simp add: samplePadded_eq)
  have hdE: "hd (entries (handleSubmit ''2024-11-21'' sampleIds samplePadded))
      = newEntry sampleIds samplePadded"
    by (simp add: handleSubmit_entries [OF nb] editingTruthy_def samplePadded_eq)
  have stored: "Entry.checkNumber (newEntry sampleIds samplePadded) = ''A1''"
    by (simp add: newEntry_def ck eval_scenario)
  from samplePadded_reachable ck stored show ?thesis
    unfolding hdE by simp
qed

section \<open>The id being edited\<close>

lemma editingPresent_handleEdit:
  assumes "editingPresent s"
  shows "editingPresent (handleEdit i s)"
proof (cases "find (\<lambda>item. Entry.id item = i) (entries s)")
  case None
  with assms show ?thesis
    by (simp add: handleEdit_def)
next
  case (Some entry)
  then have "entry \<in> set (entries s)" "Entry.id entry = i"
    by (auto simp: find_Some_iff)
  then have "i \<in> Entry.id ` set (entries s)"
    by blast
  with Some show ?thesis
    by (simp add: handleEdit_def editingPresent_def)
qed

lemma editingPresent_handleDelete:
  assumes "editingPresent s"
  shows "editingPresent (handleDelete today i s)"
proof (cases "editingId s = Some i")
  case True
  then show ?thesis
    by (simp add: handleDelete_def resetForm_def editingPresent_def)
next
  case False
  with assms show ?thesis
    by (auto simp: handleDelete_def editingPresent_def split: option.splits)
qed

lemma editingPresent_handleSubmit:
  assumes "editingPresent s"
  shows "editingPresent (handleSubmit today rnd s)"
  using assms by (simp add: handleSubmit_def resetForm_def editingPresent_def)

lemma reachable_editingPresent: "reachable s \<Longrightarrow> editingPresent s"
proof (induction rule: reachable.induct)
  case (mount rnd today)
  show ?case
    by (simp add: initialState_def editingPresent_def)
next
  case (input s fld v)
  then show ?case
    by (auto simp: handleInputChange_def editingPresent_def split: option.splits)
next
  case (search s v)
  then show ?case
    by (auto simp: setSearchTerm_def editingPresent_def split: option.splits)
next
  case (clear s today)
  show ?case
    by (simp add: resetForm_def editingPresent_def)
next
  case (submit s rnd today)
  then show ?case
    by (simp add: editingPresent_handleSubmit)
next
  case (edit s i)
  then show ?case
    by (simp add: editingPresent_handleEdit)
next
  case (delete s today i)
  then show ?case
    by (simp add: editingPresent_handleDelete)
next
  case (relay s rnd today)
  show ?case
    by (simp add: handleRelay_def resetForm_def editingPresent_def)
qed

text \<open>
  C10. In every state reachable from mounting by typing, searching, Clear, submit, Edit,
  Delete and Relay, an id being edited is the id of a stored entry. Hence, when that id
  is not empty and the plate is not blank, the replacement that submit performs finds
  an entry to replace: the new entry is among the entries afterwards.
\<close>

theorem editing_target_present:
  assumes "reachable s" and "editingId s = Some i"
  shows "(\<exists>entry \<in> set (entries s). Entry.id entry = i)
       \<and> (i \<noteq> [] \<and> \<not> list_all isWhiteSpace (FormState.plateNumber (form s)) \<longrightarrow>
            newEntry rnd s \<in> set (entries (handleSubmit today rnd s)))"
proof -
  from assms have present: "\<exists>entry \<in> set (entries s). Entry.id entry = i"
    using reachable_editingPresent [of s] by (auto simp: editingPresent_def)
  have "newEntry rnd s \<in> set (entries (handleSubmit today rnd s))"
    if "i \<noteq> []" "\<not> list_all isWhiteSpace (FormState.plateNumber (form s))"
  proof -
    from that have nb: "trim (FormState.plateNumber (form s)) \<noteq> []"
      by (simp add: trim_Nil_iff)
    from present obtain entry where "entry \<in> set (entries s)" "Entry.id entry = i"
      by blast
    then have "newEntry rnd s
        \<in> (\<lambda>entry. if Entry.id entry = i then newEntry rnd s else entry) ` set (entries s)"
      by force
    with that assms show ?thesis
      by (simp add: handleSubmit_entries [OF nb] editingTruthy_def)
  qed
  with present show ?thesis
    by blast
qed

theorem editing_target_present_witness:
  "reachable sampleEditing \<and> editingId sampleEditing = Some ''z8m4c7w0''
   \<and> (\<exists>entry \<in> set (entries sampleEditing). Entry.id entry = ''z8m4c7w0'')
   \<and> newEntry sampleIds sampleEditing
        \<in> set (entries (handleSubmit ''2024-11-21'' sampleIds sampleEditing))"
proof -
  have ed: "editingId sampleEditing = Some ''z8m4c7w0''"
    by (simp add: sampleEditing_eq)
  have nb: "''z8m4c7w0'' \<noteq> [] \<and> \<not> list_all isWhiteSpace (FormState.plateNumber (form sampleEditing))"
    by (simp add: sampleEditing_eq isWhiteSpace_def codeUnit_def)
  from editing_target_present [OF sampleEditing_reachable ed, of sampleIds "''2024-11-21''"] nb
       sampleEditing_reachable ed
  show ?thesis
    by blast
qed

section \<open>The filtered view\<close>

lemma includes_str_sublist: "includes_str hay needle \<longleftrightarrow> sublist needle hay"
  by (induction hay) (simp_all add: sublist_Cons_right)

lemma toLowerCase_Nil_iff: "toLowerCase s = [] \<longleftrightarrow> s = []"
  by (simp add: toLowerCase_def)

lemma searchTermLower_Nil_iff: "searchTermLower s = [] \<longleftrightarrow> list_all isWhiteSpace (searchTerm s)"
  by (simp add: searchTermLower_def toLowerCase_Nil_iff trim_Nil_iff)

lemma haystack_eq:
  "haystack entry =
     toLowerCase
       (Entry.plateNumber entry @ '' '' @ toString (Entry.yukBilan entry) @ '' ''
        @ toString (Entry.yuksiz entry) @ '' '' @ toString (Entry.sofVazin entry) @ '' ''
        @ Entry.date entry @ '' '' @ Entry.price entry @ '' '' @ Entry.checkNumber entry)"
  by (simp add: haystack_def)

text \<open>
  C4. When the search term is empty or white space only, the view is the list of entries
  itself. Otherwise the view keeps, in the order of the entries, exactly the entries
  whose haystack contains the trimmed, lower-cased search term as a contiguous substring,
  where the haystack is the lower case of the plate number, the three weights as
  \<^verbatim>\<open>toString\<close> prints them, the date, the price and the check number, joined by single
  spaces. The view is a subsequence of the entries in either case. It is a value computed
  from the state: \<open>filteredEntries\<close> returns no state, so the entries are not touched.
\<close>

theorem filtered_view:
  "(list_all isWhiteSpace (searchTerm s) \<longrightarrow> filteredEntries s = entries s)
   \<and> (\<not> list_all isWhiteSpace (searchTerm s) \<longrightarrow>
        filteredEntries s =
          filter (\<lambda>entry.
              sublist (toLowerCase (trim (searchTerm s)))
                (toLowerCase
                   (Entry.plateNumber entry @ '' '' @ toString (Entry.yukBilan entry) @ '' ''
                    @ toString (Entry.yuksiz entry) @ '' '' @ toString (Entry.sofVazin entry) @ '' ''
                    @ Entry.date entry @ '' '' @ Entry.price entry @ '' ''
                    @ Entry.checkNumber entry)))
            (entries s))
   \<and> subseq (filteredEntries s) (entries s)"
proof -
  have blank: "filteredEntries s = entries s" if "list_all isWhiteSpace (searchTerm s)"
    using that by (simp add: filteredEntries_def searchTermLower_Nil_iff)
  have active: "filteredEntries s =
          filter (\<lambda>entry.
              sublist (toLowerCase (trim (searchTerm s)))
                (toLowerCase
                   (Entry.plateNumber entry @ '' '' @ toString (Entry.yukBilan entry) @ '' ''
                    @ toString (Entry.yuksiz entry) @ '' '' @ toString (Entry.sofVazin entry) @ '' ''
                    @ Entry.date entry @ '' '' @ Entry.price entry @ '' ''
                    @ Entry.checkNumber entry)))
            (entries s)"
    if "\<not> list_all isWhiteSpace (searchTerm s)"
  proof -
    from that have "searchTermLower s \<noteq> []"
      by (simp add: searchTermLower_Nil_iff)
    then show ?thesis
      by (simp add: filteredEntries_def includes_str_sublist haystack_eq searchTermLower_def)
  qed
  have order: "subseq (filteredEntries s) (entries s)"
    by (simp add: filteredEntries_def)
  from blank active order show ?thesis
    by blast
qed

lemma eval_search:
  "toLowerCase (trim '' 30b555bb '') = ''30b555bb''"
  "toLowerCase (trim ''zz-no-match'') = ''zz-no-match''"
  "toString (num 48000) = ''48000''" "toString (num 12500) = ''12500''"
  "toString (num 35500) = ''35500''" "toString (num 52500) = ''52500''"
  "toString (num 14000) = ''14000''" "toString (num 38500) = ''38500''"
  by code_simp+

lemma eval_haystacks:
  "toLowerCase ''90A111AA 48000 12500 35500 2024-11-18 30,000 CHK-2024-9081''
     = ''90a111aa 48000 12500 35500 2024-11-18 30,000 chk-2024-9081''"
  "toLowerCase ''30B555BB 52500 14000 38500 2024-11-19 40,000 CHK-2024-9124''
     = ''30b555bb 52500 14000 38500 2024-11-19 40,000 chk-2024-9124''"
  by code_simp+

lemma eval_includes:
  "\<not> includes_str ''90a111aa 48000 12500 35500 2024-11-18 30,000 chk-2024-9081'' ''30b555bb''"
  "includes_str ''30b555bb 52500 14000 38500 2024-11-19 40,000 chk-2024-9124'' ''30b555bb''"
  "\<not> includes_str ''90a111aa 48000 12500 35500 2024-11-18 30,000 chk-2024-9081'' ''zz-no-match''"
  "\<not> includes_str ''30b555bb 52500 14000 38500 2024-11-19 40,000 chk-2024-9124'' ''zz-no-match''"
  by code_simp+

lemma sample_not_blank:
  "\<not> list_all isWhiteSpace '' 30b555bb ''" "\<not> list_all isWhiteSpace ''zz-no-match''"
  "list_all isWhiteSpace ''   ''"
  by (simp_all add: isWhiteSpace_def codeUnit_def)

theorem filtered_view_witness:
  "filteredEntries sampleSearch = [last (entries sampleMounted)]
   \<and> filteredEntries sampleNoMatch = []
   \<and> filteredEntries (setSearchTerm ''   '' sampleMounted) = entries sampleMounted"
proof -
  have st: "searchTerm sampleSearch = '' 30b555bb ''" "searchTerm sampleNoMatch = ''zz-no-match''"
      "searchTerm (setSearchTerm ''   '' sampleMounted) = ''   ''"
    by (simp_all add: sampleSearch_def sampleNoMatch_def setSearchTerm_def)
  have en: "entries sampleSearch = entries sampleMounted" "entries sampleNoMatch = entries sampleMounted"
      "entries (setSearchTerm ''   '' sampleMounted) = entries sampleMounted"
    by (simp_all add: sampleSearch_def sampleNoMatch_def setSearchTerm_def)
  have nb: "\<not> list_all isWhiteSpace (searchTerm sampleSearch)"
      "\<not> list_all isWhiteSpace (searchTerm sampleNoMatch)"
      "list_all isWhiteSpace (searchTerm (setSearchTerm ''   '' sampleMounted))"
    unfolding st by (rule sample_not_blank)+
  from filtered_view [of sampleSearch] nb(1)
  have "filteredEntries sampleSearch = [last (entries sampleMounted)]"
    by (simp add: st en sampleMounted_eq eval_search eval_haystacks
        includes_str_sublist [symmetric] eval_includes)
  moreover
  from filtered_view [of sampleNoMatch] nb(2)
  have "filteredEntries sampleNoMatch = []"
    by (simp add: st en sampleMounted_eq eval_search eval_haystacks
        includes_str_sublist [symmetric] eval_includes)
  moreover
  from filtered_view [of "setSearchTerm ''   '' sampleMounted"] nb(3)
  have "filteredEntries (setSearchTerm ''   '' sampleMounted) = entries sampleMounted"
    by (simp add: en)
  ultimately show ?thesis
    by (intro conjI)
qed

section \<open>Highlighting a field\<close>

text \<open>Case-insensitive matching of code units is equality of their lower case.\<close>

lemma codeUnit_char_of: "n < 256 \<Longrightarrow> codeUnit (char_of n) = n"
  by (simp add: codeUnit_def)

lemma char_of_codeUnit: "char_of (codeUnit c) = c"
  by (simp add: codeUnit_def)

lemma codeUnit_less: "codeUnit c < 256"
  by (simp add: codeUnit_def)

lemma toLowerChar_canonicalize: "toLowerChar (canonicalize c) = toLowerChar c"
  using codeUnit_less [of c] char_of_codeUnit [of c]
  by (auto simp: toLowerChar_def canonicalize_def codeUnit_char_of)

lemma canonicalize_toLowerChar: "canonicalize (toLowerChar c) = canonicalize c"
  using codeUnit_less [of c] char_of_codeUnit [of c]
  by (auto simp: toLowerChar_def canonicalize_def codeUnit_char_of)

lemma toLowerChar_idem: "toLowerChar (toLowerChar c) = toLowerChar c"
  using codeUnit_less [of c] char_of_codeUnit [of c]
  by (auto simp: toLowerChar_def codeUnit_char_of)

lemma canonicalize_eq_iff: "canonicalize a = canonicalize b \<longleftrightarrow> toLowerChar a = toLowerChar b"
  by (metis toLowerChar_canonicalize canonicalize_toLowerChar)

lemma map_canonicalize_eq_iff:
  "map canonicalize xs = map canonicalize ys \<longleftrightarrow> toLowerCase xs = toLowerCase ys"
  unfolding toLowerCase_def
  by (induction xs ys rule: list_induct2') (simp_all add: canonicalize_eq_iff)

lemma toLowerCase_idem: "toLowerCase (toLowerCase s) = toLowerCase s"
  by (simp add: toLowerCase_def toLowerChar_idem)

lemma matchesAt_iff:
  "matchesAt lit rest \<longleftrightarrow>
     length lit \<le> length rest \<and> toLowerCase (take (length lit) rest) = toLowerCase lit"
  by (simp add: matchesAt_def map_canonicalize_eq_iff)

lemma matchesAt_append: "matchesAt lit xs \<Longrightarrow> matchesAt lit (xs @ ys)"
  by (simp add: matchesAt_iff)

lemma no_match_no_sublist:
  assumes "\<And>i. \<not> matchesAt lit (drop i p)"
  shows "\<not> sublist (toLowerCase lit) (toLowerCase p)"
proof
  assume "sublist (toLowerCase lit) (toLowerCase p)"
  then obtain u v where uv: "toLowerCase p = u @ toLowerCase lit @ v"
    by (auto simp: sublist_def)
  have len: "length (toLowerCase xs) = length xs" for xs
    by (simp add: toLowerCase_def)
  have dr: "toLowerCase (drop (length u) p) = toLowerCase lit @ v"
    using uv by (simp add: toLowerCase_def drop_map [symmetric])
  then have "toLowerCase (take (length lit) (drop (length u) p)) = toLowerCase lit"
    by (simp add: toLowerCase_def take_map [symmetric])
  moreover from dr have "length lit \<le> length (drop (length u) p)"
    by (metis len length_append le_add1)
  ultimately have "matchesAt lit (drop (length u) p)"
    by (simp add: matchesAt_iff)
  with assms show False
    by blast
qed

text \<open>The escaped search term compiles to the pattern that matches the term literally.\<close>

lemma literalAtoms_escapeRegExp: "literalAtoms (escapeRegExp t) = Some t"
proof (induction t)
  case Nil
  show ?case
    by (simp add: escapeRegExp_def)
next
  case (Cons c cs)
  have bs: "backslash \<in> set syntaxCharacters"
    by (simp add: syntaxCharacters_def)
  from Cons have ih: "literalAtoms (concat (map (\<lambda>c. if c \<in> set syntaxCharacters then [backslash, c] else [c]) cs)) = Some cs"
    by (simp add: escapeRegExp_def)
  show ?case
  proof (cases "c \<in> set syntaxCharacters")
    case True
    then show ?thesis
      by (simp add: escapeRegExp_def ih)
  next
    case False
    with bs have "c \<noteq> backslash"
      by blast
    with False show ?thesis
      by (simp add: escapeRegExp_def ih)
  qed
qed

lemma compileRegExp_escaped: "compileRegExp (''('' @ escapeRegExp t @ '')'') = Some t"
  by (simp add: compileRegExp_def literalAtoms_escapeRegExp butlast_append)

lemma highlightMatch_active:
  assumes "searchTermLower s \<noteq> []"
  shows "highlightMatch s valu =
     Some (Spans (map (\<lambda>segment. (segment, toLowerCase segment = searchTermLower s))
                    (split_regex (searchTermLower s) valu)))"
  using assms by (simp add: highlightMatch_def compileRegExp_escaped [simplified])

text \<open>The segments of a split concatenate to the text, and alternate as \<open>wellSplit\<close> says.\<close>

lemma splitLoop_match:
  assumes "matchesAt lit (c # cs) \<and> \<not> (lit = [] \<and> piece = [])"
  shows "splitLoop lit piece (c # cs) =
     piece # take (length lit) (c # cs) # splitLoop lit [] (drop (length lit) (c # cs))"
proof -
  from assms have a: "matchesAt lit (c # cs)" and b: "\<not> (lit = [] \<and> piece = [])"
    by blast+
  show ?thesis
    by (subst splitLoop.simps(2)) (simp only: a b if_True simp_thms)
qed

lemma splitLoop_skip:
  assumes "\<not> (matchesAt lit (c # cs) \<and> \<not> (lit = [] \<and> piece = []))"
  shows "splitLoop lit piece (c # cs) = splitLoop lit (piece @ [c]) cs"
  by (subst splitLoop.simps(2)) (simp only: assms if_False)

lemma concat_splitLoop: "concat (splitLoop lit piece rest) = piece @ rest"
proof (induction lit piece rest rule: splitLoop.induct)
  case (1 lit piece)
  show ?case
    by simp
next
  case (2 lit piece c cs)
  show ?case
  proof (cases "matchesAt lit (c # cs) \<and> \<not> (lit = [] \<and> piece = [])")
    case True
    from 2(1) [OF True]
    have "concat (splitLoop lit [] (drop (length lit) (c # cs))) = drop (length lit) (c # cs)"
      by simp
    then have "concat (splitLoop lit piece (c # cs))
        = piece @ take (length lit) (c # cs) @ drop (length lit) (c # cs)"
      by (simp only: splitLoop_match [OF True] concat.simps)
    then show ?thesis
      by (simp only: append_take_drop_id)
  next
    case False
    from 2(2) [OF False] show ?thesis
      by (simp add: splitLoop_skip [OF False])
  qed
qed

lemma concat_split_regex: "concat (split_regex lit valu) = valu"
  by (simp add: split_regex_def concat_splitLoop)

lemma wellSplit_splitLoop:
  assumes "lit \<noteq> []" and "\<And>i. i < length piece \<Longrightarrow> \<not> matchesAt lit (drop i (piece @ rest))"
  shows "wellSplit lit (splitLoop lit piece rest)"
  using assms
proof (induction lit piece rest rule: splitLoop.induct)
  case (1 lit piece)
  have "\<not> matchesAt lit (drop i piece)" for i
  proof (cases "i < length piece")
    case True
    with 1(2) [of i] show ?thesis
      by simp
  next
    case False
    with 1(1) show ?thesis
      by (simp add: matchesAt_def)
  qed
  then show ?case
    by (simp add: no_match_no_sublist)
next
  case (2 lit piece c cs)
  show ?case
  proof (cases "matchesAt lit (c # cs) \<and> \<not> (lit = [] \<and> piece = [])")
    case True
    have "\<not> matchesAt lit (drop i piece)" for i
    proof (cases "i < length piece")
      case True
      with 2(4) [of i] matchesAt_append [of lit "drop i piece" "c # cs"] show ?thesis
        by auto
    next
      case False
      with 2(3) show ?thesis
        by (simp add: matchesAt_def)
    qed
    then have p: "\<not> sublist (toLowerCase lit) (toLowerCase piece)"
      by (rule no_match_no_sublist)
    from True have m: "toLowerCase (take (length lit) (c # cs)) = toLowerCase lit"
      by (simp add: matchesAt_iff)
    have r: "wellSplit lit (splitLoop lit [] (drop (length lit) (c # cs)))"
      by (rule 2(1) [OF True 2(3)]) simp
    from p m r show ?thesis
      by (simp only: splitLoop_match [OF True] wellSplit.simps simp_thms)
  next
    case False
    with 2(3) have nm: "\<not> matchesAt lit (c # cs)"
      by simp
    have inv: "\<not> matchesAt lit (drop i ((piece @ [c]) @ cs))" if "i < length (piece @ [c])" for i
    proof (cases "i < length piece")
      case True
      with 2(4) [of i] show ?thesis
        by simp
    next
      case False
      with that have "i = length piece"
        by simp
      with nm show ?thesis
        by simp
    qed
    have "wellSplit lit (splitLoop lit (piece @ [c]) cs)"
      by (rule 2(2) [OF False 2(3)]) (rule inv)
    then show ?thesis
      by (simp only: splitLoop_skip [OF False])
  qed
qed

lemma wellSplit_split_regex:
  assumes "lit \<noteq> []"
  shows "wellSplit lit (split_regex lit valu)"
proof (cases "valu = []")
  case True
  with assms show ?thesis
    by (simp add: split_regex_def matchesAt_def toLowerCase_def)
next
  case False
  have "wellSplit lit (splitLoop lit [] valu)"
    by (rule wellSplit_splitLoop [OF assms]) simp
  with False show ?thesis
    by (simp add: split_regex_def)
qed

lemma wellSplit_nth:
  assumes "wellSplit lit segs" and "i < length segs" and "lit \<noteq> []"
  shows "(toLowerCase (segs ! i) = toLowerCase lit) = odd i
       \<and> (even i \<longrightarrow> \<not> sublist (toLowerCase lit) (toLowerCase (segs ! i)))"
  using assms
proof (induction lit segs arbitrary: i rule: wellSplit.induct)
  case (1 lit)
  then show ?case
    by simp
next
  case (2 lit p)
  then have "i = 0" and "\<not> sublist (toLowerCase lit) (toLowerCase p)"
    by simp_all
  then show ?case
    by auto
next
  case (3 lit p m r)
  then have p: "\<not> sublist (toLowerCase lit) (toLowerCase p)"
    and m: "toLowerCase m = toLowerCase lit" and r: "wellSplit lit r"
    by simp_all
  show ?case
  proof (cases i)
    case 0
    with p show ?thesis
      by auto
  next
    case (Suc j)
    show ?thesis
    proof (cases j)
      case 0
      with Suc m show ?thesis
        by simp
    next
      case (Suc k)
      with \<open>i = Suc j\<close> 3(3) have "k < length r"
        by simp
      from 3(1) [OF r this 3(4)] Suc \<open>i = Suc j\<close> show ?thesis
        by simp
    qed
  qed
qed

text \<open>
  C5. When the search term is not blank, \<^verbatim>\<open>highlightMatch\<close> returns spans whose texts
  concatenate to the field text. A span is marked exactly when its text, in lower case,
  equals the trimmed, lower-cased search term, and the marked spans are exactly those at
  the odd positions, the ones the split cut out as matches. No unmarked span contains an
  occurrence of the search term, ignoring case: every occurrence that the split finds,
  from left to right and without overlap, is marked, not the first one only.
\<close>

theorem highlight_marks_occurrences:
  assumes "\<not> list_all isWhiteSpace (searchTerm s)"
  shows "\<exists>spans.
     highlightMatch s valu = Some (Spans spans)
     \<and> concat (map fst spans) = valu
     \<and> (\<forall>i < length spans.
          snd (spans ! i) = (toLowerCase (fst (spans ! i)) = toLowerCase (trim (searchTerm s))))
     \<and> (\<forall>i < length spans. snd (spans ! i) = odd i)
     \<and> (\<forall>i < length spans.
          \<not> snd (spans ! i) \<longrightarrow>
          \<not> sublist (toLowerCase (trim (searchTerm s))) (toLowerCase (fst (spans ! i))))"
proof -
  define lit where "lit = searchTermLower s"
  define segs where "segs = split_regex lit valu"
  define spans where "spans = map (\<lambda>segment. (segment, toLowerCase segment = lit)) segs"
  from assms have ne: "lit \<noteq> []"
    by (simp add: lit_def searchTermLower_Nil_iff)
  have low: "toLowerCase lit = lit"
    by (simp add: lit_def searchTermLower_def toLowerCase_idem)
  have lit: "lit = toLowerCase (trim (searchTerm s))"
    by (simp add: lit_def searchTermLower_def)
  have hm: "highlightMatch s valu = Some (Spans spans)"
    using ne by (simp add: highlightMatch_active spans_def segs_def lit_def)
  have cat: "concat (map fst spans) = valu"
    by (simp add: spans_def segs_def comp_def concat_split_regex)
  have ws: "wellSplit lit segs"
    unfolding segs_def by (rule wellSplit_split_regex [OF ne])
  have flag: "snd (spans ! i) = (toLowerCase (fst (spans ! i)) = lit)" if "i < length spans" for i
    using that by (simp add: spans_def)
  have par: "snd (spans ! i) = odd i" if "i < length spans" for i
  proof -
    from that have i: "i < length segs"
      by (simp add: spans_def)
    from wellSplit_nth [OF ws i ne] i show ?thesis
      by (simp add: spans_def low)
  qed
  have occ: "\<not> sublist lit (toLowerCase (fst (spans ! i)))"
    if "i < length spans" "\<not> snd (spans ! i)" for i
  proof -
    from that have i: "i < length segs"
      by (simp add: spans_def)
    from par [OF that(1)] that(2) have "even i"
      by simp
    with wellSplit_nth [OF ws i ne] i show ?thesis
      by (simp add: spans_def low)
  qed
  from hm cat flag par occ show ?thesis
    unfolding lit by blast
qed

lemma eval_highlight:
  "toLowerCase (trim ''550'') = ''550''"
  "split_regex ''550'' ''38,550'' = [''38,'', ''550'', '''']"
  "toLowerCase (trim '' A1'') = ''a1''"
  "split_regex ''a1'' ''A1-a1-xA1y'' = ['''', ''A1'', ''-'', ''a1'', ''-x'', ''A1'', ''y'']"
  "map toLowerCase [''38,'', ''550'', ''''] = [''38,'', ''550'', '''']"
  "map toLowerCase ['''', ''A1'', ''-'', ''a1'', ''-x'', ''A1'', ''y'']
     = ['''', ''a1'', ''-'', ''a1'', ''-x'', ''a1'', ''y'']"
  by code_simp+

lemma sample550_highlight:
  "highlightMatch sample550 ''38,550'' = Some (Spans [(''38,'', False), (''550'', True), ('''', False)])"
proof -
  have t: "searchTermLower sample550 = ''550''"
    by (simp add: searchTermLower_def sample550_def setSearchTerm_def eval_highlight)
  have "map (\<lambda>segment. (segment, toLowerCase segment = ''550'')) [''38,'', ''550'', '''']
      = [(''38,'', False), (''550'', True), ('''', False)]"
    using eval_highlight(5) by simp
  then show ?thesis
    by (simp add: highlightMatch_active t eval_highlight)
qed

lemma sampleA1_highlight:
  "highlightMatch sampleA1 ''A1-a1-xA1y'' =
     Some (Spans [('''', False), (''A1'', True), (''-'', False), (''a1'', True), (''-x'', False),
                  (''A1'', True), (''y'', False)])"
proof -
  have t: "searchTermLower sampleA1 = ''a1''"
    by (simp add: searchTermLower_def sampleA1_def setSearchTerm_def eval_highlight)
  have "map (\<lambda>segment. (segment, toLowerCase segment = ''a1''))
          ['''', ''A1'', ''-'', ''a1'', ''-x'', ''A1'', ''y'']
      = [('''', False), (''A1'', True), (''-'', False), (''a1'', True), (''-x'', False),
         (''A1'', True), (''y'', False)]"
    using eval_highlight(6) by simp
  then show ?thesis
    by (simp add: highlightMatch_active t eval_highlight)
qed

theorem highlight_marks_occurrences_witness:
  "highlightMatch sample550 ''38,550'' = Some (Spans [(''38,'', False), (''550'', True), ('''', False)])
   \<and> highlightMatch sampleA1 ''A1-a1-xA1y'' =
       Some (Spans [('''', False), (''A1'', True), (''-'', False), (''a1'', True), (''-x'', False),
                    (''A1'', True), (''y'', False)])
   \<and> \<not> sublist (toLowerCase (trim ''550'')) (toLowerCase ''38,'')
   \<and> \<not> sublist (toLowerCase (trim '' A1'')) (toLowerCase ''-x'')"
proof -
  have st: "searchTerm sample550 = ''550''" "searchTerm sampleA1 = '' A1''"
    by (simp_all add: sample550_def sampleA1_def setSearchTerm_def)
  have nb: "\<not> list_all isWhiteSpace (searchTerm sample550)"
      "\<not> list_all isWhiteSpace (searchTerm sampleA1)"
    by (simp_all add: st isWhiteSpace_def codeUnit_def)
  from highlight_marks_occurrences [OF nb(1), of "''38,550''"]
  obtain spans where sp: "highlightMatch sample550 ''38,550'' = Some (Spans spans)"
    and occ: "\<forall>i < length spans. \<not> snd (spans ! i) \<longrightarrow>
        \<not> sublist (toLowerCase (trim (searchTerm sample550))) (toLowerCase (fst (spans ! i)))"
    by blast
  from sp have spans: "spans = [(''38,'', False), (''550'', True), ('''', False)]"
    by (simp add: sample550_highlight)
  from occ [rule_format, of 0] have a: "\<not> sublist (toLowerCase (trim ''550'')) (toLowerCase ''38,'')"
    by (simp add: spans st)
  from highlight_marks_occurrences [OF nb(2), of "''A1-a1-xA1y''"]
  obtain spans' where sp': "highlightMatch sampleA1 ''A1-a1-xA1y'' = Some (Spans spans')"
    and occ': "\<forall>i < length spans'. \<not> snd (spans' ! i) \<longrightarrow>
        \<not> sublist (toLowerCase (trim (searchTerm sampleA1))) (toLowerCase (fst (spans' ! i)))"
    by blast
  from sp' have spans': "spans' = [('''', False), (''A1'', True), (''-'', False), (''a1'', True),
      (''-x'', False), (''A1'', True), (''y'', False)]"
    by (simp add: sampleA1_highlight)
  from occ' [rule_format, of 4] have b: "\<not> sublist (toLowerCase (trim '' A1'')) (toLowerCase ''-x'')"
    by (simp add: spans' st)
  from sample550_highlight sampleA1_highlight a b show ?thesis
    by (intro conjI)
qed

end
